theory Spec2Isabelle
  imports Main "HOL-Library.AList"
begin

section \<open>JavaScript strings and JSON values\<close>

text \<open>
  A JavaScript string is a sequence of UTF-16 code units; it is modelled as a list of
  natural numbers. The text a socket handler sees is \<^verbatim>\<open>data.toString()\<close>, the chunk
  already decoded to such a string. \<open>js\<close> turns an ASCII literal into that form.
\<close>

type_synonym jstring = "nat list"

definition js :: "string \<Rightarrow> jstring" where
  "js s = map of_char s"

text \<open>
  What \<^verbatim>\<open>JSON.parse\<close> returns. A number keeps the digits of its literal: the program
  only passes numbers through, and their conversion to a double (and back to text by
  \<^verbatim>\<open>JSON.stringify\<close>) is not modelled. An object is its list of own properties, a later
  duplicate key overwriting the value of the earlier one.
\<close>

datatype json =
    JNull
  | JBool bool
  | JNum jstring
  | JStr jstring
  | JArr "json list"
  | JObj "(jstring \<times> json) list"

subsection \<open>The lexer of \<^verbatim>\<open>JSON.parse\<close>\<close>

text \<open>
  \<^verbatim>\<open>JSON.parse\<close> is the built-in of the JavaScript runtime, not code of the repository.
  It is modelled after the JSON grammar (ECMA-404) as two automata that read their
  input from left to right: a lexer over code units and a parser over tokens.
\<close>

datatype token =
    TLBrace | TRBrace | TLBrack | TRBrack | TColon | TComma
  | TString jstring | TNumber jstring | TTrue | TFalse | TNull

datatype lmode =
    MStart
  | MStr jstring
  | MEsc jstring
  | MUni jstring nat nat
  | MMinus
  | MZero jstring
  | MInt jstring
  | MDot jstring
  | MFrac jstring
  | MExp jstring
  | MExpSign jstring
  | MExpDig jstring
  | MLit token nat

datatype lstate = LErr | LSt lmode "token list"

definition is_ws :: "nat \<Rightarrow> bool" where
  \<comment> \<open>JSON whitespace: space, tab, line feed, carriage return\<close>
  "is_ws c = (c = 32 \<or> c = 9 \<or> c = 10 \<or> c = 13)"

definition is_digit :: "nat \<Rightarrow> bool" where
  "is_digit c = (48 \<le> c \<and> c \<le> 57)"

definition hex_digit :: "nat \<Rightarrow> nat option" where
  "hex_digit c =
     (if 48 \<le> c \<and> c \<le> 57 then Some (c - 48)
      else if 97 \<le> c \<and> c \<le> 102 then Some (c - 87)
      else if 65 \<le> c \<and> c \<le> 70 then Some (c - 55)
      else None)"

definition unescape :: "nat \<Rightarrow> nat option" where
  \<comment> \<open>the character after a backslash: \<^verbatim>\<open>" \ / b f n r t\<close>\<close>
  "unescape c =
     (if c = 34 \<or> c = 92 \<or> c = 47 then Some c
      else if c = 98 then Some 8
      else if c = 102 then Some 12
      else if c = 110 then Some 10
      else if c = 114 then Some 13
      else if c = 116 then Some 9
      else None)"

definition lit_text :: "token \<Rightarrow> jstring" where
  \<comment> \<open>the spelling of a literal name; \<open>MLit tok k\<close> has read its first \<open>k\<close> units\<close>
  "lit_text tok =
     (case tok of
        TTrue \<Rightarrow> js ''true''
      | TFalse \<Rightarrow> js ''false''
      | TNull \<Rightarrow> js ''null''
      | _ \<Rightarrow> [])"

definition start_step :: "token list \<Rightarrow> nat \<Rightarrow> lstate" where
  \<comment> \<open>the first code unit of a token\<close>
  "start_step ts c =
     (if is_ws c then LSt MStart ts
      else if c = 123 then LSt MStart (ts @ [TLBrace])
      else if c = 125 then LSt MStart (ts @ [TRBrace])
      else if c = 91 then LSt MStart (ts @ [TLBrack])
      else if c = 93 then LSt MStart (ts @ [TRBrack])
      else if c = 58 then LSt MStart (ts @ [TColon])
      else if c = 44 then LSt MStart (ts @ [TComma])
      else if c = 34 then LSt (MStr []) ts
      else if c = 45 then LSt MMinus ts
      else if c = 48 then LSt (MZero [c]) ts
      else if is_digit c then LSt (MInt [c]) ts
      else if c = 116 then LSt (MLit TTrue 1) ts
      else if c = 102 then LSt (MLit TFalse 1) ts
      else if c = 110 then LSt (MLit TNull 1) ts
      else LErr)"

fun mode_step :: "lmode \<Rightarrow> token list \<Rightarrow> nat \<Rightarrow> lstate" where
  "mode_step MStart ts c = start_step ts c"
| "mode_step (MStr s) ts c =
     (if c = 34 then LSt MStart (ts @ [TString s])
      else if c = 92 then LSt (MEsc s) ts
      else if c < 32 then LErr
      else LSt (MStr (s @ [c])) ts)"
| "mode_step (MEsc s) ts c =
     (case unescape c of
        Some d \<Rightarrow> LSt (MStr (s @ [d])) ts
      | None \<Rightarrow> if c = 117 then LSt (MUni s 0 0) ts else LErr)"
| "mode_step (MUni s k v) ts c =
     (case hex_digit c of
        None \<Rightarrow> LErr
      | Some d \<Rightarrow>
          if k = 3 then LSt (MStr (s @ [16 * v + d])) ts
          else LSt (MUni s (Suc k) (16 * v + d)) ts)"
| "mode_step MMinus ts c =
     (if c = 48 then LSt (MZero [45, c]) ts
      else if is_digit c then LSt (MInt [45, c]) ts
      else LErr)"
| "mode_step (MZero n) ts c =
     (if c = 46 then LSt (MDot (n @ [c])) ts
      else if c = 101 \<or> c = 69 then LSt (MExp (n @ [c])) ts
      else start_step (ts @ [TNumber n]) c)"
| "mode_step (MInt n) ts c =
     (if is_digit c then LSt (MInt (n @ [c])) ts
      else if c = 46 then LSt (MDot (n @ [c])) ts
      else if c = 101 \<or> c = 69 then LSt (MExp (n @ [c])) ts
      else start_step (ts @ [TNumber n]) c)"
| "mode_step (MDot n) ts c =
     (if is_digit c then LSt (MFrac (n @ [c])) ts else LErr)"
| "mode_step (MFrac n) ts c =
     (if is_digit c then LSt (MFrac (n @ [c])) ts
      else if c = 101 \<or> c = 69 then LSt (MExp (n @ [c])) ts
      else start_step (ts @ [TNumber n]) c)"
| "mode_step (MExp n) ts c =
     (if c = 43 \<or> c = 45 then LSt (MExpSign (n @ [c])) ts
      else if is_digit c then LSt (MExpDig (n @ [c])) ts
      else LErr)"
| "mode_step (MExpSign n) ts c =
     (if is_digit c then LSt (MExpDig (n @ [c])) ts else LErr)"
| "mode_step (MExpDig n) ts c =
     (if is_digit c then LSt (MExpDig (n @ [c])) ts
      else start_step (ts @ [TNumber n]) c)"
| "mode_step (MLit tok k) ts c =
     (if k < length (lit_text tok) \<and> c = lit_text tok ! k then
        (if Suc k = length (lit_text tok) then LSt MStart (ts @ [tok])
         else LSt (MLit tok (Suc k)) ts)
      else LErr)"

fun lex_step :: "lstate \<Rightarrow> nat \<Rightarrow> lstate" where
  "lex_step LErr c = LErr"
| "lex_step (LSt m ts) c = mode_step m ts c"

fun lex_end :: "lstate \<Rightarrow> token list option" where
  "lex_end LErr = None"
| "lex_end (LSt MStart ts) = Some ts"
| "lex_end (LSt (MZero n) ts) = Some (ts @ [TNumber n])"
| "lex_end (LSt (MInt n) ts) = Some (ts @ [TNumber n])"
| "lex_end (LSt (MFrac n) ts) = Some (ts @ [TNumber n])"
| "lex_end (LSt (MExpDig n) ts) = Some (ts @ [TNumber n])"
| "lex_end (LSt _ ts) = None"

definition lex :: "jstring \<Rightarrow> token list option" where
  "lex cs = lex_end (foldl lex_step (LSt MStart []) cs)"

text \<open>A lexer state with tokens put in front of those it has produced.\<close>

fun with_tokens :: "token list \<Rightarrow> lstate \<Rightarrow> lstate" where
  "with_tokens pre LErr = LErr"
| "with_tokens pre (LSt m ts) = LSt m (pre @ ts)"

subsection \<open>The parser of \<^verbatim>\<open>JSON.parse\<close>\<close>

datatype frame =
    FArr "json list"
  | FObj "(jstring \<times> json) list" "jstring option"

datatype phase = PValue | PValueOrClose | PKeyOrClose | PKey | PColon | PCommaOrClose

datatype pstate = PErr | PRun phase "frame list" | PDone json

fun deliver :: "json \<Rightarrow> frame list \<Rightarrow> pstate" where
  "deliver v [] = PDone v"
| "deliver v (FArr xs # st) = PRun PCommaOrClose (FArr (xs @ [v]) # st)"
| "deliver v (FObj kvs (Some k) # st) =
     PRun PCommaOrClose (FObj (AList.update k v kvs) None # st)"
| "deliver v (FObj kvs None # st) = PErr"

definition wants_value :: "phase \<Rightarrow> bool" where
  "wants_value ph = (ph = PValue \<or> ph = PValueOrClose)"

fun run_step :: "phase \<Rightarrow> frame list \<Rightarrow> token \<Rightarrow> pstate" where
  "run_step ph st TLBrack =
     (if wants_value ph then PRun PValueOrClose (FArr [] # st) else PErr)"
| "run_step ph st TLBrace =
     (if wants_value ph then PRun PKeyOrClose (FObj [] None # st) else PErr)"
| "run_step ph st TRBrack =
     (case st of
        FArr xs # r \<Rightarrow>
          if ph = PValueOrClose \<or> ph = PCommaOrClose then deliver (JArr xs) r else PErr
      | _ \<Rightarrow> PErr)"
| "run_step ph st TRBrace =
     (case st of
        FObj kvs None # r \<Rightarrow>
          if ph = PKeyOrClose \<or> ph = PCommaOrClose then deliver (JObj kvs) r else PErr
      | _ \<Rightarrow> PErr)"
| "run_step ph st TComma =
     (if ph \<noteq> PCommaOrClose then PErr
      else case st of
        FArr xs # r \<Rightarrow> PRun PValue st
      | FObj kvs None # r \<Rightarrow> PRun PKey st
      | _ \<Rightarrow> PErr)"
| "run_step ph st TColon = (if ph = PColon then PRun PValue st else PErr)"
| "run_step ph st (TString s) =
     (if wants_value ph then deliver (JStr s) st
      else if ph = PKeyOrClose \<or> ph = PKey then
        (case st of
           FObj kvs None # r \<Rightarrow> PRun PColon (FObj kvs (Some s) # r)
         | _ \<Rightarrow> PErr)
      else PErr)"
| "run_step ph st (TNumber n) = (if wants_value ph then deliver (JNum n) st else PErr)"
| "run_step ph st TTrue = (if wants_value ph then deliver (JBool True) st else PErr)"
| "run_step ph st TFalse = (if wants_value ph then deliver (JBool False) st else PErr)"
| "run_step ph st TNull = (if wants_value ph then deliver JNull st else PErr)"

fun pstep :: "pstate \<Rightarrow> token \<Rightarrow> pstate" where
  "pstep PErr t = PErr"
| "pstep (PDone v) t = PErr"
| "pstep (PRun ph st) t = run_step ph st t"

fun pfinish :: "pstate \<Rightarrow> json option" where
  "pfinish (PDone v) = Some v"
| "pfinish _ = None"

definition parse_tokens :: "token list \<Rightarrow> json option" where
  "parse_tokens ts = pfinish (foldl pstep (PRun PValue []) ts)"

definition JSON_parse :: "jstring \<Rightarrow> json option" where
  \<comment> \<open>\<open>None\<close>: \<^verbatim>\<open>JSON.parse\<close> throws a SyntaxError\<close>
  "JSON_parse cs = (case lex cs of None \<Rightarrow> None | Some ts \<Rightarrow> parse_tokens ts)"

subsection \<open>Reading a parsed message\<close>

text \<open>
  \<^verbatim>\<open>message.type\<close>, \<^verbatim>\<open>message.payload\<close> and \<^verbatim>\<open>message.id\<close> on a value other than
  \<^verbatim>\<open>null\<close>: an object gives its own property, every other value gives \<^verbatim>\<open>undefined\<close>
  (\<open>None\<close>), since no prototype defines one of these three names. On \<^verbatim>\<open>null\<close> the
  access throws a TypeError; the callers test for \<open>JNull\<close> first.
\<close>

fun get_prop :: "json \<Rightarrow> jstring \<Rightarrow> json option" where
  "get_prop (JObj kvs) k = map_of kvs k"
| "get_prop _ k = None"

text \<open>
  A template literal converts \<^verbatim>\<open>message.type\<close> to a string. For a parsed object the
  conversion calls the inherited \<^verbatim>\<open>toString\<close> unless the object has an own property of
  that name, which is never callable: then it throws a TypeError. An array joins the
  conversions of its elements.
\<close>

fun ToString_throws :: "json \<Rightarrow> bool" where
  "ToString_throws (JObj kvs) = (map_of kvs (js ''toString'') \<noteq> None)"
| "ToString_throws (JArr xs) = list_ex ToString_throws xs"
| "ToString_throws _ = False"

fun show_nat :: "nat \<Rightarrow> jstring" where
  "show_nat n = (if n < 10 then [48 + n] else show_nat (n div 10) @ [48 + n mod 10])"

section \<open>The protocol message and the observable effects\<close>

datatype msg_type = Data | Keepalive | Ping | Pong | Close

text \<open>
  A message the program builds and sends (interface \<^verbatim>\<open>ProtocolMessage\<close>; the fields
  \<^verbatim>\<open>type\<close> and \<^verbatim>\<open>id\<close> are \<open>mtype\<close> and \<open>mid\<close> here). An absent optional field is
  \<open>None\<close>. A received message is whatever \<^verbatim>\<open>JSON.parse\<close> returned: a \<open>json\<close>.
\<close>

record ProtocolMessage =
  mtype :: msg_type
  payload :: "json option"
  timestamp :: int
  mid :: "json option"

datatype level = LogL | WarnL | ErrorL

text \<open>
  What the program does to the outside, in order. \<open>SockWrite k m\<close> is
  \<^verbatim>\<open>socket.write(JSON.stringify(m) + '\n')\<close> on socket \<open>k\<close>: the effect records the
  message \<open>m\<close> that is serialised, not the bytes. \<open>Console l\<close> is one call of
  \<^verbatim>\<open>console.log\<close>, \<^verbatim>\<open>console.warn\<close> or \<^verbatim>\<open>console.error\<close> (its text is not modelled, and
  the call is taken not to throw). The other effects are \<^verbatim>\<open>socket.end()\<close>,
  \<^verbatim>\<open>socket.destroy()\<close>, \<^verbatim>\<open>client.connect(port, host)\<close>, \<^verbatim>\<open>clearInterval(h)\<close>,
  \<^verbatim>\<open>server.listen(port)\<close> and \<^verbatim>\<open>server.close()\<close>.
\<close>

datatype effect =
    SockWrite nat ProtocolMessage
  | SockEnd nat
  | SockDestroy nat
  | SockConnect nat jstring
  | ClearInterval nat
  | Console level
  | ServerListen nat
  | ServerClose

section \<open>The server (\<^verbatim>\<open>src/index.ts\<close>)\<close>

record ConnectionInfo =
  socket :: nat
  lastActivity :: int
  keepAliveInterval :: "nat option"
  isAlive :: bool

text \<open>
  The callbacks given to \<^verbatim>\<open>setInterval\<close> and \<^verbatim>\<open>setTimeout\<close>. The server's two close over
  the \<^verbatim>\<open>connection\<close> object (its address in the heap) and the timeout check also over
  \<^verbatim>\<open>connectionId\<close>.
\<close>

datatype timer_action =
    Probe nat
  | TimeoutCheck nat jstring
  | ClientProbe
  | ClientTimeoutCheck
  | ClientEnd

record timer =
  period :: int
  started :: int
  action :: timer_action

definition interval_period :: "int \<Rightarrow> int" where
  \<comment> \<open>Node sets a delay below 1 or above 2147483647 to 1\<close>
  "interval_period d = (if 1 \<le> d \<and> d \<le> 2147483647 then d else 1)"

definition due :: "timer \<Rightarrow> int \<Rightarrow> bool" where
  \<comment> \<open>a repeating timer that keeps its schedule fires at \<open>started + k * period\<close>, \<open>k \<ge> 1\<close>\<close>
  "due t now = (started t < now \<and> (now - started t) mod period t = 0)"

text \<open>
  The state of a \<^verbatim>\<open>TCPServer\<close>. \<open>connections\<close> is the \<^verbatim>\<open>Map\<close> from connection id to
  \<^verbatim>\<open>ConnectionInfo\<close> object, in insertion order; the objects live in \<open>heap\<close>, because
  the timer callbacks keep a reference to an object after the map has dropped it.
  \<open>keepAliveIntervalMs\<close> is the server's field \<^verbatim>\<open>keepAliveInterval\<close> (a \<^verbatim>\<open>ConnectionInfo\<close>
  has a field of the same name). \<open>listeners\<close> maps a socket to the \<^verbatim>\<open>connectionId\<close> its
  four handlers close over; \<open>timers\<close> holds the intervals that are scheduled.

  A handler that reads the clock takes \<open>now\<close>: what \<^verbatim>\<open>Date.now()\<close> returns while it runs
  (a handler runs to completion, and its reads of the clock are taken to agree).
\<close>

record server =
  port :: nat
  keepAliveTimeout :: int
  keepAliveIntervalMs :: int
  connections :: "(jstring \<times> nat) list"
  heap :: "nat \<Rightarrow> ConnectionInfo"
  next_obj :: nat
  timers :: "nat \<rightharpoonup> timer"
  next_timer :: nat
  listeners :: "nat \<rightharpoonup> jstring"
  effects :: "effect list"

definition TCPServer :: "nat \<Rightarrow> int \<Rightarrow> int \<Rightarrow> server" where
  "TCPServer p tmo itv =
     \<lparr>port = p, keepAliveTimeout = tmo, keepAliveIntervalMs = itv, connections = [],
      heap = (\<lambda>_. \<lparr>socket = 0, lastActivity = 0, keepAliveInterval = None, isAlive = False\<rparr>),
      next_obj = 0, timers = Map.empty, next_timer = 0, listeners = Map.empty,
      effects = []\<rparr>"

definition console :: "level \<Rightarrow> server \<Rightarrow> server" where
  "console l s = s\<lparr>effects := effects s @ [Console l]\<rparr>"

definition sendMessage :: "nat \<Rightarrow> ProtocolMessage \<Rightarrow> server \<Rightarrow> server" where
  "sendMessage sock m s = s\<lparr>effects := effects s @ [SockWrite sock m]\<rparr>"

definition setInterval :: "timer_action \<Rightarrow> int \<Rightarrow> int \<Rightarrow> server \<Rightarrow> server" where
  \<comment> \<open>the handle it returns is \<open>next_timer s\<close>\<close>
  "setInterval act delay now s =
     s\<lparr>timers := (timers s)(next_timer s \<mapsto>
          \<lparr>period = interval_period delay, started = now, action = act\<rparr>),
       next_timer := Suc (next_timer s)\<rparr>"

definition clearInterval :: "nat \<Rightarrow> server \<Rightarrow> server" where
  "clearInterval h s =
     s\<lparr>timers := (timers s)(h := None), effects := effects s @ [ClearInterval h]\<rparr>"

definition cleanupConnection :: "jstring \<Rightarrow> server \<Rightarrow> server" where
  "cleanupConnection connectionId s =
     (case map_of (connections s) connectionId of
        None \<Rightarrow> s
      | Some a \<Rightarrow>
          let s1 = (case keepAliveInterval (heap s a) of
                      Some h \<Rightarrow> clearInterval h s
                    | None \<Rightarrow> s)
          in s1\<lparr>connections := AList.delete connectionId (connections s1)\<rparr>)"

definition startKeepAlive :: "jstring \<Rightarrow> int \<Rightarrow> server \<Rightarrow> server" where
  "startKeepAlive connectionId now s =
     (case map_of (connections s) connectionId of
        None \<Rightarrow> s
      | Some a \<Rightarrow>
          let h = next_timer s;
              s1 = setInterval (Probe a) (keepAliveIntervalMs s) now s;
              s2 = s1\<lparr>heap := (heap s1)(a := (heap s1 a)\<lparr>keepAliveInterval := Some h\<rparr>)\<rparr>
          in setInterval (TimeoutCheck a connectionId) (keepAliveTimeout s2) now s2)"

definition probe_action :: "nat \<Rightarrow> int \<Rightarrow> server \<Rightarrow> server" where
  "probe_action a now s =
     (if isAlive (heap s a) then
        sendMessage (socket (heap s a))
          \<lparr>mtype = Keepalive,
           payload = Some (JObj [(js ''message'', JStr (js ''keepalive''))]),
           timestamp = now, mid = None\<rparr> s
      else s)"

definition timeout_action :: "nat \<Rightarrow> jstring \<Rightarrow> int \<Rightarrow> server \<Rightarrow> server" where
  "timeout_action a connectionId now s =
     (if now - lastActivity (heap s a) > keepAliveTimeout s then
        let s1 = console LogL s;
            s2 = s1\<lparr>effects := effects s1 @ [SockDestroy (socket (heap s1 a))]\<rparr>
        in cleanupConnection connectionId s2
      else s)"

definition on_timer :: "nat \<Rightarrow> int \<Rightarrow> server \<Rightarrow> server" where
  \<comment> \<open>the runtime fires interval \<open>h\<close>; a cleared interval does not fire\<close>
  "on_timer h now s =
     (case timers s h of
        None \<Rightarrow> s
      | Some t \<Rightarrow>
          (case action t of
             Probe a \<Rightarrow> probe_action a now s
           | TimeoutCheck a connectionId \<Rightarrow> timeout_action a connectionId now s
           | _ \<Rightarrow> s))"

text \<open>
  \<^verbatim>\<open>handleMessage\<close> returns whether it threw, and the state it left. It throws where it
  reads \<^verbatim>\<open>message.type\<close> of \<^verbatim>\<open>null\<close> or cannot convert the type to a string for the log
  line, after \<^verbatim>\<open>lastActivity\<close> and \<^verbatim>\<open>isAlive\<close> have been set. The \<^verbatim>\<open>switch\<close> compares with
  \<^verbatim>\<open>===\<close>: only a string selects a case.
\<close>

definition handleMessage :: "json \<Rightarrow> jstring \<Rightarrow> int \<Rightarrow> server \<Rightarrow> bool \<times> server" where
  "handleMessage message connectionId now s =
     (case map_of (connections s) connectionId of
        None \<Rightarrow> (False, s)
      | Some a \<Rightarrow>
          let s1 = s\<lparr>heap := (heap s)(a := (heap s a)\<lparr>lastActivity := now, isAlive := True\<rparr>)\<rparr>;
              sock = socket (heap s1 a)
          in if message = JNull then (True, s1)
             else if (case get_prop message (js ''type'') of
                        None \<Rightarrow> False | Some ty \<Rightarrow> ToString_throws ty) then (True, s1)
             else
               let s2 = console LogL s1;
                   ty = get_prop message (js ''type'')
               in if ty = Some (JStr (js ''data'')) then
                    (False, sendMessage sock
                       \<lparr>mtype = Data, payload = get_prop message (js ''payload''),
                        timestamp = now, mid = get_prop message (js ''id'')\<rparr> s2)
                  else if ty = Some (JStr (js ''ping'')) then
                    (False, sendMessage sock
                       \<lparr>mtype = Pong,
                        payload = Some (JObj [(js ''message'', JStr (js ''pong''))]),
                        timestamp = now, mid = get_prop message (js ''id'')\<rparr> s2)
                  else if ty = Some (JStr (js ''keepalive'')) then
                    (False, sendMessage sock
                       \<lparr>mtype = Keepalive,
                        payload = Some (JObj [(js ''status'', JStr (js ''alive''))]),
                        timestamp = now, mid = get_prop message (js ''id'')\<rparr> s2)
                  else if ty = Some (JStr (js ''close'')) then
                    (let s3 = sendMessage sock
                         \<lparr>mtype = Close,
                          payload = Some (JObj [(js ''message'',
                                        JStr (js ''Connection closed by client''))]),
                          timestamp = now, mid = None\<rparr> s2
                     in (False, s3\<lparr>effects := effects s3 @ [SockEnd sock]\<rparr>))
                  else (False, console WarnL s2))"

definition invalid_format_reply :: "int \<Rightarrow> ProtocolMessage" where
  "invalid_format_reply now =
     \<lparr>mtype = Data,
      payload = Some (JObj [(js ''error'', JStr (js ''Invalid message format''))]),
      timestamp = now, mid = None\<rparr>"

definition on_data :: "nat \<Rightarrow> jstring \<Rightarrow> jstring \<Rightarrow> int \<Rightarrow> server \<Rightarrow> server" where
  \<comment> \<open>the \<^verbatim>\<open>'data'\<close> handler of \<^verbatim>\<open>setupSocketHandlers(socket, connectionId)\<close>\<close>
  "on_data sock connectionId chunk now s =
     (case JSON_parse chunk of
        None \<Rightarrow> sendMessage sock (invalid_format_reply now) (console ErrorL s)
      | Some message \<Rightarrow>
          (case handleMessage message connectionId now s of
             (True, s1) \<Rightarrow> sendMessage sock (invalid_format_reply now) (console ErrorL s1)
           | (False, s1) \<Rightarrow> s1))"

definition on_end :: "jstring \<Rightarrow> server \<Rightarrow> server" where
  "on_end connectionId s = cleanupConnection connectionId (console LogL s)"

definition on_error :: "jstring \<Rightarrow> server \<Rightarrow> server" where
  "on_error connectionId s = cleanupConnection connectionId (console ErrorL s)"

definition on_close :: "jstring \<Rightarrow> server \<Rightarrow> server" where
  "on_close connectionId s = cleanupConnection connectionId (console LogL s)"

definition setupSocketHandlers :: "nat \<Rightarrow> jstring \<Rightarrow> server \<Rightarrow> server" where
  "setupSocketHandlers sock connectionId s =
     s\<lparr>listeners := (listeners s)(sock \<mapsto> connectionId)\<rparr>"

definition connection_id :: "jstring option \<Rightarrow> nat option \<Rightarrow> jstring" where
  \<comment> \<open>the template \<^verbatim>\<open>`${socket.remoteAddress}:${socket.remotePort}`\<close>\<close>
  "connection_id addr prt =
     (case addr of None \<Rightarrow> js ''undefined'' | Some a \<Rightarrow> a) @ js '':'' @
     (case prt of None \<Rightarrow> js ''undefined'' | Some p \<Rightarrow> show_nat p)"

definition on_connection :: "nat \<Rightarrow> jstring option \<Rightarrow> nat option \<Rightarrow> int \<Rightarrow> server \<Rightarrow> server" where
  \<comment> \<open>the \<^verbatim>\<open>'connection'\<close> handler of \<^verbatim>\<open>setupEventHandlers\<close>\<close>
  "on_connection sock addr prt now s =
     (let connectionId = connection_id addr prt;
          s1 = console LogL s;
          a = next_obj s1;
          s2 = s1\<lparr>heap := (heap s1)(a :=
                    \<lparr>socket = sock, lastActivity = now, keepAliveInterval = None,
                     isAlive = True\<rparr>),
                  next_obj := Suc a\<rparr>;
          s3 = s2\<lparr>connections := AList.update connectionId a (connections s2)\<rparr>;
          s4 = setupSocketHandlers sock connectionId s3
      in startKeepAlive connectionId now s4)"

definition start :: "server \<Rightarrow> server" where
  "start s = s\<lparr>effects := effects s @ [ServerListen (port s)]\<rparr>"

definition stop_one :: "server \<Rightarrow> jstring \<times> nat \<Rightarrow> server" where
  \<comment> \<open>the body of the loop of \<^verbatim>\<open>stop\<close>\<close>
  "stop_one s ca =
     (let a = snd ca;
          s1 = (case keepAliveInterval (heap s a) of
                  Some h \<Rightarrow> clearInterval h s
                | None \<Rightarrow> s)
      in s1\<lparr>effects := effects s1 @ [SockDestroy (socket (heap s1 a))]\<rparr>)"

definition stop :: "server \<Rightarrow> server" where
  "stop s =
     (let s1 = foldl stop_one s (connections s);
          s2 = s1\<lparr>connections := []\<rparr>
      in s2\<lparr>effects := effects s2 @ [ServerClose]\<rparr>)"

definition getConnectionCount :: "server \<Rightarrow> nat" where
  "getConnectionCount s = length (connections s)"

definition getConnections :: "server \<Rightarrow> jstring list" where
  "getConnections s = map fst (connections s)"

subsection \<open>The events the runtime delivers to the server\<close>

datatype event =
    EvConnection nat "jstring option" "nat option" int
  | EvData nat jstring int
  | EvEnd nat
  | EvError nat
  | EvClose nat
  | EvTimer nat int
  | EvServerError
  | EvStart
  | EvListening
  | EvStop
  | EvServerClosed

fun step :: "event \<Rightarrow> server \<Rightarrow> server" where
  "step (EvConnection sock addr prt now) s = on_connection sock addr prt now s"
| "step (EvData sock chunk now) s =
     (case listeners s sock of None \<Rightarrow> s | Some cid \<Rightarrow> on_data sock cid chunk now s)"
| "step (EvEnd sock) s = (case listeners s sock of None \<Rightarrow> s | Some cid \<Rightarrow> on_end cid s)"
| "step (EvError sock) s = (case listeners s sock of None \<Rightarrow> s | Some cid \<Rightarrow> on_error cid s)"
| "step (EvClose sock) s = (case listeners s sock of None \<Rightarrow> s | Some cid \<Rightarrow> on_close cid s)"
| "step (EvTimer h now) s = on_timer h now s"
| "step EvServerError s = console ErrorL s"
| "step EvStart s = start s"
| "step EvListening s = console LogL (console LogL (console LogL s))"
| "step EvStop s = stop s"
| "step EvServerClosed s = console LogL s"


fun run :: "event list \<Rightarrow> server \<Rightarrow> server" where
  "run [] s = s"
| "run (e # es) s = run es (step e s)"

definition reachable :: "server \<Rightarrow> bool" where
  "reachable s = (\<exists>p tmo itv es. s = run es (TCPServer p tmo itv))"

section \<open>The client (\<^verbatim>\<open>client/index.ts\<close>)\<close>

text \<open>
  The state of a \<^verbatim>\<open>TCPClient\<close>; fields whose names the server's records already use carry
  the prefix \<open>c_\<close>. The client owns one socket, written \<open>client_socket\<close> in its effects.
\<close>

record client =
  c_host :: jstring
  c_port :: nat
  c_keepAliveTimeout :: int
  c_keepAliveInterval :: int
  keepAliveTimer :: "nat option"
  timeoutTimer :: "nat option"
  c_lastActivity :: int
  isConnected :: bool
  messageId :: nat
  c_timers :: "nat \<rightharpoonup> timer"
  c_next_timer :: nat
  c_effects :: "effect list"

definition client_socket :: nat where
  "client_socket = 0"

definition TCPClient :: "jstring \<Rightarrow> nat \<Rightarrow> int \<Rightarrow> int \<Rightarrow> int \<Rightarrow> client" where
  \<comment> \<open>the last argument is what \<^verbatim>\<open>Date.now()\<close> returns in the constructor\<close>
  "TCPClient h p tmo itv now =
     \<lparr>c_host = h, c_port = p, c_keepAliveTimeout = tmo, c_keepAliveInterval = itv,
      keepAliveTimer = None, timeoutTimer = None, c_lastActivity = now,
      isConnected = False, messageId = 0, c_timers = Map.empty, c_next_timer = 0,
      c_effects = []\<rparr>"

definition c_console :: "level \<Rightarrow> client \<Rightarrow> client" where
  "c_console l c = c\<lparr>c_effects := c_effects c @ [Console l]\<rparr>"

definition c_sendMessage :: "ProtocolMessage \<Rightarrow> int \<Rightarrow> client \<Rightarrow> client" where
  "c_sendMessage m now c =
     (if \<not> isConnected c then c_console ErrorL c
      else c\<lparr>c_effects := c_effects c @ [SockWrite client_socket m],
             c_lastActivity := now\<rparr>)"

definition c_setTimer :: "timer_action \<Rightarrow> int \<Rightarrow> int \<Rightarrow> client \<Rightarrow> client" where
  \<comment> \<open>\<^verbatim>\<open>setInterval\<close> and \<^verbatim>\<open>setTimeout\<close>; the handle returned is \<open>c_next_timer c\<close>\<close>
  "c_setTimer act delay now c =
     c\<lparr>c_timers := (c_timers c)(c_next_timer c \<mapsto>
          \<lparr>period = interval_period delay, started = now, action = act\<rparr>),
       c_next_timer := Suc (c_next_timer c)\<rparr>"

definition c_clearInterval :: "nat \<Rightarrow> client \<Rightarrow> client" where
  "c_clearInterval h c =
     c\<lparr>c_timers := (c_timers c)(h := None), c_effects := c_effects c @ [ClearInterval h]\<rparr>"

definition c_startKeepAlive :: "int \<Rightarrow> client \<Rightarrow> client" where
  "c_startKeepAlive now c =
     (let h1 = c_next_timer c;
          c1 = (c_setTimer ClientProbe (c_keepAliveInterval c) now c)\<lparr>keepAliveTimer := Some h1\<rparr>;
          h2 = c_next_timer c1
      in (c_setTimer ClientTimeoutCheck (c_keepAliveTimeout c1) now c1)\<lparr>timeoutTimer := Some h2\<rparr>)"

definition c_stopKeepAlive :: "client \<Rightarrow> client" where
  "c_stopKeepAlive c =
     (let c1 = (case keepAliveTimer c of
                  Some h \<Rightarrow> (c_clearInterval h c)\<lparr>keepAliveTimer := None\<rparr>
                | None \<Rightarrow> c)
      in case timeoutTimer c1 of
           Some h \<Rightarrow> (c_clearInterval h c1)\<lparr>timeoutTimer := None\<rparr>
         | None \<Rightarrow> c1)"

definition disconnect :: "int \<Rightarrow> client \<Rightarrow> client" where
  "disconnect now c =
     (let c1 = c_sendMessage
                 \<lparr>mtype = Close,
                  payload = Some (JObj [(js ''message'', JStr (js ''Client disconnecting''))]),
                  timestamp = now, mid = None\<rparr> now c
      in c_setTimer ClientEnd 100 now c1)"

definition c_handleMessage :: "json \<Rightarrow> int \<Rightarrow> client \<Rightarrow> bool \<times> client" where
  \<comment> \<open>as on the server, the log line throws on \<^verbatim>\<open>null\<close> and on a type that has no string\<close>
  "c_handleMessage message now c =
     (if message = JNull then (True, c)
      else if (case get_prop message (js ''type'') of
                 None \<Rightarrow> False | Some ty \<Rightarrow> ToString_throws ty) then (True, c)
      else
        let c1 = c_console LogL c;
            ty = get_prop message (js ''type'')
        in if ty = Some (JStr (js ''data'')) then (False, c_console LogL c1)
           else if ty = Some (JStr (js ''pong'')) then (False, c_console LogL c1)
           else if ty = Some (JStr (js ''keepalive'')) then (False, c_console LogL c1)
           else if ty = Some (JStr (js ''close'')) then
             (False, disconnect now (c_console LogL c1))
           else (False, c_console WarnL c1))"

definition is_js_space :: "nat \<Rightarrow> bool" where
  \<comment> \<open>the white space and line terminators that \<^verbatim>\<open>String.prototype.trim\<close> removes\<close>
  "is_js_space c =
     (c = 9 \<or> c = 10 \<or> c = 11 \<or> c = 12 \<or> c = 13 \<or> c = 32 \<or> c = 160 \<or> c = 5760 \<or>
      (8192 \<le> c \<and> c \<le> 8202) \<or> c = 8232 \<or> c = 8233 \<or> c = 8239 \<or> c = 8287 \<or>
      c = 12288 \<or> c = 65279)"

definition trim :: "jstring \<Rightarrow> jstring" where
  "trim s = rev (dropWhile is_js_space (rev (dropWhile is_js_space s)))"

definition c_on_connect :: "int \<Rightarrow> client \<Rightarrow> client" where
  "c_on_connect now c =
     c_startKeepAlive now ((c_console LogL c)\<lparr>isConnected := True, c_lastActivity := now\<rparr>)"

definition c_on_data :: "jstring \<Rightarrow> int \<Rightarrow> client \<Rightarrow> client" where
  "c_on_data chunk now c =
     (let c1 = c\<lparr>c_lastActivity := now\<rparr>
      in case JSON_parse (trim chunk) of
           None \<Rightarrow> c_console ErrorL c1
         | Some message \<Rightarrow>
             (case c_handleMessage message now c1 of
                (True, c2) \<Rightarrow> c_console ErrorL c2
              | (False, c2) \<Rightarrow> c2))"

definition c_on_error :: "client \<Rightarrow> client" where
  "c_on_error c = (c_console ErrorL c)\<lparr>isConnected := False\<rparr>"

definition c_on_end :: "client \<Rightarrow> client" where
  "c_on_end c = c_stopKeepAlive ((c_console LogL c)\<lparr>isConnected := False\<rparr>)"

definition c_on_close :: "client \<Rightarrow> client" where
  "c_on_close c = c_stopKeepAlive ((c_console LogL c)\<lparr>isConnected := False\<rparr>)"

definition c_on_timer :: "nat \<Rightarrow> int \<Rightarrow> client \<Rightarrow> client" where
  "c_on_timer h now c =
     (case c_timers c h of
        None \<Rightarrow> c
      | Some t \<Rightarrow>
          (case action t of
             ClientProbe \<Rightarrow>
               if isConnected c then
                 let c1 = c\<lparr>messageId := Suc (messageId c)\<rparr>
                 in c_sendMessage
                      \<lparr>mtype = Keepalive,
                       payload = Some (JObj [(js ''message'', JStr (js ''keepalive''))]),
                       timestamp = now,
                       mid = Some (JStr (js ''keepalive_'' @ show_nat (messageId c1)))\<rparr> now c1
               else c
           | ClientTimeoutCheck \<Rightarrow>
               if now - c_lastActivity c > c_keepAliveTimeout c then
                 let c1 = c_console LogL c
                 in c1\<lparr>c_effects := c_effects c1 @ [SockDestroy client_socket]\<rparr>
               else c
           | ClientEnd \<Rightarrow>
               c\<lparr>c_timers := (c_timers c)(h := None),
                 c_effects := c_effects c @ [SockEnd client_socket]\<rparr>
           | _ \<Rightarrow> c))"

definition connect :: "client \<Rightarrow> client" where
  "connect c = c\<lparr>c_effects := c_effects c @ [SockConnect (c_port c) (c_host c)]\<rparr>"

definition send :: "json option \<Rightarrow> int \<Rightarrow> client \<Rightarrow> client" where
  "send data now c =
     (let c1 = c\<lparr>messageId := Suc (messageId c)\<rparr>
      in c_sendMessage
           \<lparr>mtype = Data, payload = data, timestamp = now,
            mid = Some (JStr (js ''data_'' @ show_nat (messageId c1)))\<rparr> now c1)"

definition ping :: "int \<Rightarrow> client \<Rightarrow> client" where
  "ping now c =
     (let c1 = c\<lparr>messageId := Suc (messageId c)\<rparr>
      in c_sendMessage
           \<lparr>mtype = Ping, payload = Some (JObj [(js ''message'', JStr (js ''ping''))]),
            timestamp = now,
            mid = Some (JStr (js ''ping_'' @ show_nat (messageId c1)))\<rparr> now c1)"

text \<open>
  An invariant of the reachable states: a handle stored in a connection record was
  returned by \<^verbatim>\<open>setInterval\<close> before.
\<close>

definition handles_allocated :: "server \<Rightarrow> bool" where
  "handles_allocated s = (\<forall>a h. keepAliveInterval (heap s a) = Some h \<longrightarrow> h < next_timer s)"

section \<open>Counting effects\<close>

text \<open>How often a trace closes a socket (ends or destroys it), and how many intervals it
  cancels.\<close>

definition transport_closes :: "nat \<Rightarrow> effect list \<Rightarrow> nat" where
  "transport_closes sock efs = length (filter (\<lambda>e. e = SockEnd sock \<or> e = SockDestroy sock) efs)"

definition cancellations :: "effect list \<Rightarrow> nat" where
  "cancellations efs = length (filter (\<lambda>e. case e of ClearInterval h \<Rightarrow> True | _ \<Rightarrow> False) efs)"

section \<open>Example states\<close>

definition example_id :: jstring where
  "example_id = js ''127.0.0.1:54321''"

definition example_server :: server where
  \<comment> \<open>the server of the repository after one client has connected at time 1000\<close>
  "example_server =
     on_connection 7 (Some (js ''127.0.0.1'')) (Some 54321) 1000 (TCPServer 4000 30000 10000)"

definition example_client :: client where
  \<comment> \<open>the client of the repository, connected at time 1000\<close>
  "example_client = c_on_connect 1000 (TCPClient (js ''localhost'') 4000 30000 10000 990)"

definition ping_line1 :: jstring where
  \<open>ping_line1 = js ''{"type":"ping","id":"p1"}''\<close>

definition ping_line2 :: jstring where
  \<open>ping_line2 = js ''{"type":"ping","id":"p2"}''\<close>

definition ping_message :: "string \<Rightarrow> json" where
  "ping_message i = JObj [(js ''type'', JStr (js ''ping'')), (js ''id'', JStr (js i))]"

definition pong_reply :: "string \<Rightarrow> int \<Rightarrow> ProtocolMessage" where
  "pong_reply i now =
     \<lparr>mtype = Pong, payload = Some (JObj [(js ''message'', JStr (js ''pong''))]),
      timestamp = now, mid = Some (JStr (js i))\<rparr>"

section \<open>Evaluation of the example states\<close>

lemma type_names_distinct:
  "js ''ping'' \<noteq> js ''data''" "js ''keepalive'' \<noteq> js ''data''" "js ''close'' \<noteq> js ''data''"
  "js ''keepalive'' \<noteq> js ''ping''" "js ''close'' \<noteq> js ''ping''" "js ''close'' \<noteq> js ''keepalive''"
  by (simp_all add: js_def)

lemmas eval_defs =
  example_server_def example_id_def on_connection_def Let_def TCPServer_def console_def
  setupSocketHandlers_def startKeepAlive_def setInterval_def connection_id_def js_def
  interval_period_def

lemma example_connections: "connections example_server = [(example_id, 0)]"
  by (simp add: eval_defs)

lemma example_heap:
  "heap example_server 0 =
     \<lparr>socket = 7, lastActivity = 1000, keepAliveInterval = Some 0, isAlive = True\<rparr>"
  by (simp add: eval_defs)

lemma example_effects: "effects example_server = [Console LogL]"
  by (simp add: eval_defs)

lemma example_timers:
  "timers example_server 0 = Some \<lparr>period = 10000, started = 1000, action = Probe 0\<rparr>"
  "timers example_server 1 =
     Some \<lparr>period = 30000, started = 1000, action = TimeoutCheck 0 example_id\<rparr>"
  by (simp_all add: eval_defs)

lemma example_config:
  "keepAliveTimeout example_server = 30000" "next_timer example_server = 2"
  by (simp_all add: eval_defs)

lemma example_reachable: "reachable example_server"
  unfolding reachable_def example_server_def
  by (rule exI [of _ 4000], rule exI [of _ 30000], rule exI [of _ 10000],
      rule exI [of _ "[EvConnection 7 (Some (js ''127.0.0.1'')) (Some 54321) 1000]"]) simp

section \<open>The dispatcher and an unknown connection\<close>

text \<open>
  Claim C10. When the connection identifier is not in the registry, \<^verbatim>\<open>handleMessage\<close>
  returns at once: it sends nothing and leaves the whole server state as it was, and so
  does the data handler that called it with a decoded message.
\<close>

theorem handleMessage_unregistered_noop:
  "map_of (connections s) cid = None \<Longrightarrow>
     handleMessage message cid now s = (False, s) \<and>
     (JSON_parse chunk = Some message \<longrightarrow> on_data sock cid chunk now s = s)"
  by (simp add: handleMessage_def on_data_def)

theorem handleMessage_unregistered_noop_witness:
  \<open>map_of (connections example_server) (js ''10.0.0.9:80'') = None \<and>
   JSON_parse (js ''{"type":"ping","id":"p1"}'') =
     Some (JObj [(js ''type'', JStr (js ''ping'')), (js ''id'', JStr (js ''p1''))]) \<and>
   handleMessage (JObj [(js ''type'', JStr (js ''ping'')), (js ''id'', JStr (js ''p1''))])
     (js ''10.0.0.9:80'') 2000 example_server = (False, example_server) \<and>
   on_data 9 (js ''10.0.0.9:80'') (js ''{"type":"ping","id":"p1"}'') 2000 example_server =
     example_server\<close>
proof -
  have a: "map_of (connections example_server) (js ''10.0.0.9:80'') = None"
    by (simp add: example_connections example_id_def js_def)
  have b: \<open>JSON_parse (js ''{"type":"ping","id":"p1"}'') =
     Some (JObj [(js ''type'', JStr (js ''ping'')), (js ''id'', JStr (js ''p1''))])\<close>
    by code_simp
  show ?thesis
    using handleMessage_unregistered_noop [OF a, of _ 2000 _ 9] a b by blast
qed

section \<open>Echo of data messages and reply to ping\<close>






section \<open>Malformed input\<close>

lemma example_client_state:
  "isConnected example_client" "c_lastActivity example_client = 1000"
  "c_effects example_client = [Console LogL]"
  by (simp_all add: example_client_def c_on_connect_def c_startKeepAlive_def c_setTimer_def
      c_console_def TCPClient_def Let_def)



section \<open>Registration\<close>

lemma on_connection_unfolded:
  "on_connection sock addr prt now s =
     s\<lparr>heap := (heap s)(next_obj s :=
            \<lparr>socket = sock, lastActivity = now, keepAliveInterval = Some (next_timer s),
             isAlive = True\<rparr>),
       next_obj := Suc (next_obj s),
       connections := AList.update (connection_id addr prt) (next_obj s) (connections s),
       listeners := (listeners s)(sock \<mapsto> connection_id addr prt),
       timers := (timers s)
         (next_timer s \<mapsto>
            \<lparr>period = interval_period (keepAliveIntervalMs s), started = now,
             action = Probe (next_obj s)\<rparr>,
          Suc (next_timer s) \<mapsto>
            \<lparr>period = interval_period (keepAliveTimeout s), started = now,
             action = TimeoutCheck (next_obj s) (connection_id addr prt)\<rparr>),
       next_timer := Suc (Suc (next_timer s)),
       effects := effects s @ [Console LogL]\<rparr>"
  by (simp add: on_connection_def Let_def console_def setupSocketHandlers_def
      startKeepAlive_def setInterval_def update_conv')

text \<open>
  Claim C5, as the code has it. The connection handler creates the record with
  \<open>lastActivity = now\<close> and \<open>isAlive = True\<close>, stores it under the identifier and starts
  the two intervals. It never fails: the identifier is bound to the new record whether
  or not it was bound before, and every other identifier keeps its record.
\<close>

theorem register_creates_and_overwrites:
  "map_of (connections (on_connection sock addr prt now s)) =
     (map_of (connections s))(connection_id addr prt \<mapsto> next_obj s) \<and>
   heap (on_connection sock addr prt now s) (next_obj s) =
     \<lparr>socket = sock, lastActivity = now, keepAliveInterval = Some (next_timer s),
      isAlive = True\<rparr> \<and>
   timers (on_connection sock addr prt now s) (next_timer s) =
     Some \<lparr>period = interval_period (keepAliveIntervalMs s), started = now,
           action = Probe (next_obj s)\<rparr> \<and>
   timers (on_connection sock addr prt now s) (Suc (next_timer s)) =
     Some \<lparr>period = interval_period (keepAliveTimeout s), started = now,
           action = TimeoutCheck (next_obj s) (connection_id addr prt)\<rparr>"
  by (simp add: on_connection_unfolded update_conv')

text \<open>
  The claim as the specification states it fails: a second connection with the
  identifier of a registered one is registered too, and replaces the first record.
\<close>

theorem register_overwrites_counterexample:
  "map_of (connections example_server) example_id = Some 0 \<and>
   connection_id (Some (js ''127.0.0.1'')) (Some 54321) = example_id \<and>
   map_of (connections
     (on_connection 8 (Some (js ''127.0.0.1'')) (Some 54321) 2000 example_server)) example_id
     = Some 1 \<and>
   getConnectionCount
     (on_connection 8 (Some (js ''127.0.0.1'')) (Some 54321) 2000 example_server) = 1"
proof -
  have a: "connection_id (Some (js ''127.0.0.1'')) (Some 54321) = example_id"
    by (simp add: connection_id_def example_id_def js_def)
  have b: "next_obj example_server = 1"
    by (simp add: eval_defs)
  show ?thesis
    by (simp add: on_connection_unfolded a b example_connections getConnectionCount_def)
qed

section \<open>Teardown\<close>

lemma cleanupConnection_unfolded:
  "cleanupConnection cid s =
     (case map_of (connections s) cid of
        None \<Rightarrow> s
      | Some a \<Rightarrow>
          (case keepAliveInterval (heap s a) of
             None \<Rightarrow> s\<lparr>connections := AList.delete cid (connections s)\<rparr>
           | Some h \<Rightarrow>
               s\<lparr>timers := (timers s)(h := None),
                 effects := effects s @ [ClearInterval h],
                 connections := AList.delete cid (connections s)\<rparr>))"
  by (simp add: cleanupConnection_def clearInterval_def Let_def split: option.splits)

lemma cleanupConnection_absent:
  "map_of (connections s) cid = None \<Longrightarrow> cleanupConnection cid s = s"
  by (simp add: cleanupConnection_def)

lemma cleanupConnection_removes:
  "map_of (connections (cleanupConnection cid s)) cid = None"
  by (simp add: cleanupConnection_unfolded delete_conv split: option.splits)

lemma cleanupConnection_frame:
  "heap (cleanupConnection cid s) = heap s"
  "next_timer (cleanupConnection cid s) = next_timer s"
  "keepAliveTimeout (cleanupConnection cid s) = keepAliveTimeout s"
  "listeners (cleanupConnection cid s) = listeners s"
  by (simp_all add: cleanupConnection_unfolded split: option.splits)

lemma cleanupConnection_timers:
  "timers s h = None \<Longrightarrow> timers (cleanupConnection cid s) h = None"
  by (simp add: cleanupConnection_unfolded split: option.splits)

text \<open>
  Claim C3, as the code has it. Teardown of an identifier that is not registered
  changes nothing, and a second teardown after a first changes nothing more. The two
  calls together cancel the probe interval of the connection once, when the record
  holds its handle, and do nothing to the socket: the only effect they add is that
  \<^verbatim>\<open>clearInterval\<close>.
\<close>

theorem cleanupConnection_idempotent:
  "(map_of (connections s) cid = None \<longrightarrow> cleanupConnection cid s = s) \<and>
   cleanupConnection cid (cleanupConnection cid s) = cleanupConnection cid s \<and>
   effects (cleanupConnection cid (cleanupConnection cid s)) =
     effects s @
       (case map_of (connections s) cid of
          None \<Rightarrow> []
        | Some a \<Rightarrow>
            (case keepAliveInterval (heap s a) of
               None \<Rightarrow> []
             | Some h \<Rightarrow> [ClearInterval h]))"
proof -
  have twice: "cleanupConnection cid (cleanupConnection cid s) = cleanupConnection cid s"
    by (rule cleanupConnection_absent) (rule cleanupConnection_removes)
  have "effects (cleanupConnection cid s) =
     effects s @
       (case map_of (connections s) cid of
          None \<Rightarrow> []
        | Some a \<Rightarrow>
            (case keepAliveInterval (heap s a) of
               None \<Rightarrow> []
             | Some h \<Rightarrow> [ClearInterval h]))"
    by (simp add: cleanupConnection_unfolded split: option.splits)
  with twice show ?thesis
    by (simp add: cleanupConnection_absent)
qed

theorem cleanupConnection_idempotent_witness:
  "map_of (connections (cleanupConnection example_id example_server)) example_id = None \<and>
   cleanupConnection example_id (cleanupConnection example_id example_server) =
     cleanupConnection example_id example_server \<and>
   effects (cleanupConnection example_id (cleanupConnection example_id example_server)) =
     [Console LogL, ClearInterval 0]"
  using cleanupConnection_idempotent [of example_server example_id]
    cleanupConnection_idempotent [of "cleanupConnection example_id example_server" example_id]
  by (simp add: cleanupConnection_removes example_connections example_heap example_effects)

text \<open>
  The claim as the specification states it fails: after two teardowns of the example
  connection its socket has been closed by no one, not once, and of its two intervals
  only the probe has been cancelled.
\<close>

theorem teardown_twice_counterexample:
  "transport_closes 7
     (effects (cleanupConnection example_id (cleanupConnection example_id example_server))) = 0 \<and>
   cancellations
     (effects (cleanupConnection example_id (cleanupConnection example_id example_server))) = 1 \<and>
   timers (cleanupConnection example_id (cleanupConnection example_id example_server)) 1 =
     Some \<lparr>period = 30000, started = 1000, action = TimeoutCheck 0 example_id\<rparr>"
  using example_timers(2)
  by (simp add: cleanupConnection_unfolded example_connections example_heap example_effects
      transport_closes_def cancellations_def)

subsection \<open>Interval handles are never reused\<close>

lemma handleMessage_frame:
  assumes "handleMessage message cid now s = (b, s')"
  shows "next_timer s' = next_timer s" and "timers s' = timers s"
    and "connections s' = connections s"
    and "keepAliveInterval (heap s' a) = keepAliveInterval (heap s a)"
    and "listeners s' = listeners s"
  using assms
  by (auto simp: handleMessage_def Let_def console_def sendMessage_def
      split: option.splits if_splits)

lemma on_data_frame:
  "next_timer (on_data sock cid chunk now s) = next_timer s"
  "timers (on_data sock cid chunk now s) = timers s"
  "connections (on_data sock cid chunk now s) = connections s"
  "keepAliveInterval (heap (on_data sock cid chunk now s) a) = keepAliveInterval (heap s a)"
proof -
  obtain b s' where h: "handleMessage (the (JSON_parse chunk)) cid now s = (b, s')"
    by (cases "handleMessage (the (JSON_parse chunk)) cid now s")
  note f = handleMessage_frame [OF h]
  show "next_timer (on_data sock cid chunk now s) = next_timer s"
    "timers (on_data sock cid chunk now s) = timers s"
    "connections (on_data sock cid chunk now s) = connections s"
    "keepAliveInterval (heap (on_data sock cid chunk now s) a) = keepAliveInterval (heap s a)"
    using h f
    by (auto simp: on_data_def sendMessage_def console_def split: option.splits bool.splits)
qed

lemma on_timer_frame:
  "heap (on_timer h now s) = heap s" "next_timer (on_timer h now s) = next_timer s"
  by (auto simp: on_timer_def probe_action_def timeout_action_def sendMessage_def console_def
      Let_def cleanupConnection_frame split: option.splits timer_action.splits)

lemma on_timer_timers:
  "timers s h' = None \<Longrightarrow> timers (on_timer h now s) h' = None"
  by (auto simp: on_timer_def probe_action_def timeout_action_def sendMessage_def console_def
      Let_def cleanupConnection_timers split: option.splits timer_action.splits)

lemma stop_one_frame:
  "heap (stop_one s ca) = heap s" "next_timer (stop_one s ca) = next_timer s"
  "timers s h = None \<Longrightarrow> timers (stop_one s ca) h = None"
  by (auto simp: stop_one_def Let_def clearInterval_def split: option.splits)

lemma foldl_stop_one_frame:
  "heap (foldl stop_one s cs) = heap s \<and> next_timer (foldl stop_one s cs) = next_timer s \<and>
   (timers s h = None \<longrightarrow> timers (foldl stop_one s cs) h = None)"
  by (induction cs arbitrary: s) (simp_all add: stop_one_frame)

lemma stop_frame:
  "heap (stop s) = heap s" "next_timer (stop s) = next_timer s"
  "timers s h = None \<Longrightarrow> timers (stop s) h = None"
  using foldl_stop_one_frame [of s "connections s" h] by (simp_all add: stop_def Let_def)

lemma step_keeps_cleared:
  assumes "timers s h = None" and "h < next_timer s"
  shows "timers (step e s) h = None \<and> h < next_timer (step e s)"
proof (cases e)
  case (EvConnection sock addr prt now)
  with assms show ?thesis by (simp add: on_connection_unfolded)
next
  case (EvData sock chunk now)
  with assms show ?thesis by (simp add: on_data_frame split: option.splits)
next
  case (EvEnd sock)
  with assms show ?thesis
    by (simp add: on_end_def cleanupConnection_frame cleanupConnection_timers console_def
        split: option.splits)
next
  case (EvError sock)
  with assms show ?thesis
    by (simp add: on_error_def cleanupConnection_frame cleanupConnection_timers console_def
        split: option.splits)
next
  case (EvClose sock)
  with assms show ?thesis
    by (simp add: on_close_def cleanupConnection_frame cleanupConnection_timers console_def
        split: option.splits)
next
  case (EvTimer h' now)
  with assms show ?thesis by (simp add: on_timer_frame on_timer_timers)
next
  case EvStop
  with assms show ?thesis by (simp add: stop_frame)
qed (use assms in \<open>simp_all add: console_def start_def\<close>)

lemma run_keeps_cleared:
  "timers s h = None \<Longrightarrow> h < next_timer s \<Longrightarrow> timers (run es s) h = None"
  by (induction es arbitrary: s) (simp_all add: step_keeps_cleared)

lemma step_handles_allocated:
  assumes "handles_allocated s"
  shows "handles_allocated (step e s)"
proof (cases e)
  case (EvConnection sock addr prt now)
  with assms show ?thesis
    by (auto simp: handles_allocated_def on_connection_unfolded less_Suc_eq)
next
  case (EvData sock chunk now)
  with assms show ?thesis
    by (auto simp: handles_allocated_def on_data_frame split: option.splits)
next
  case (EvEnd sock)
  with assms show ?thesis
    by (auto simp: handles_allocated_def on_end_def cleanupConnection_frame console_def
        split: option.splits)
next
  case (EvError sock)
  with assms show ?thesis
    by (auto simp: handles_allocated_def on_error_def cleanupConnection_frame console_def
        split: option.splits)
next
  case (EvClose sock)
  with assms show ?thesis
    by (auto simp: handles_allocated_def on_close_def cleanupConnection_frame console_def
        split: option.splits)
next
  case (EvTimer h' now)
  with assms show ?thesis by (simp add: handles_allocated_def on_timer_frame)
next
  case EvStop
  with assms show ?thesis by (simp add: handles_allocated_def stop_frame)
qed (use assms in \<open>simp_all add: handles_allocated_def console_def start_def\<close>)

lemma run_handles_allocated:
  "handles_allocated s \<Longrightarrow> handles_allocated (run es s)"
  by (induction es arbitrary: s) (simp_all add: step_handles_allocated)

lemma reachable_handles_allocated: "reachable s \<Longrightarrow> handles_allocated s"
proof -
  assume "reachable s"
  then obtain p tmo itv es where s: "s = run es (TCPServer p tmo itv)"
    by (auto simp: reachable_def)
  have "handles_allocated (TCPServer p tmo itv)"
    by (simp add: handles_allocated_def TCPServer_def)
  with s show ?thesis by (simp add: run_handles_allocated)
qed

text \<open>
  Claim C1, as the code has it. For a registered connection of a reachable server
  state, teardown cancels the probe interval whose handle the record holds and removes
  the entry; it adds no other effect, so it does not touch the socket (the callers of
  teardown close it, or run because it is closing). From then on the probe interval is
  not scheduled, whatever events follow, and firing its handle does nothing.
\<close>

theorem cleanupConnection_cancels_probe:
  assumes "reachable s"
    and "map_of (connections s) cid = Some a"
    and "keepAliveInterval (heap s a) = Some h"
  shows "map_of (connections (cleanupConnection cid s)) cid = None \<and>
     effects (cleanupConnection cid s) = effects s @ [ClearInterval h] \<and>
     (\<forall>es. timers (run es (cleanupConnection cid s)) h = None) \<and>
     (\<forall>es now. on_timer h now (run es (cleanupConnection cid s)) =
                run es (cleanupConnection cid s))"
proof -
  let ?s' = "cleanupConnection cid s"
  from assms(1) have "handles_allocated s" by (rule reachable_handles_allocated)
  with assms(3) have "h < next_timer s" by (auto simp: handles_allocated_def)
  then have lt: "h < next_timer ?s'" by (simp add: cleanupConnection_frame)
  from assms(2,3) have cleared: "timers ?s' h = None"
    by (simp add: cleanupConnection_unfolded)
  have never: "timers (run es ?s') h = None" for es
    using cleared lt by (rule run_keeps_cleared)
  have "on_timer h now (run es ?s') = run es ?s'" for es now
    by (simp add: on_timer_def never)
  moreover from assms(2,3) have "effects ?s' = effects s @ [ClearInterval h]"
    by (simp add: cleanupConnection_unfolded)
  ultimately show ?thesis
    using never by (simp add: cleanupConnection_removes)
qed

theorem cleanupConnection_cancels_probe_witness:
  "reachable example_server \<and>
   map_of (connections example_server) example_id = Some 0 \<and>
   keepAliveInterval (heap example_server 0) = Some 0 \<and>
   map_of (connections (cleanupConnection example_id example_server)) example_id = None \<and>
   effects (cleanupConnection example_id example_server) = [Console LogL, ClearInterval 0] \<and>
   on_timer 0 11000 (run [EvClose 7] (cleanupConnection example_id example_server)) =
     run [EvClose 7] (cleanupConnection example_id example_server)"
proof -
  have a: "map_of (connections example_server) example_id = Some 0"
    by (simp add: example_connections)
  have b: "keepAliveInterval (heap example_server 0) = Some 0"
    by (simp add: example_heap)
  note th = cleanupConnection_cancels_probe [OF example_reachable a b]
  from th have c: "on_timer 0 11000 (run [EvClose 7] (cleanupConnection example_id example_server)) =
     run [EvClose 7] (cleanupConnection example_id example_server)"
    by blast
  from th have "effects (cleanupConnection example_id example_server) =
     effects example_server @ [ClearInterval 0]"
    by blast
  then have d: "effects (cleanupConnection example_id example_server) =
     [Console LogL, ClearInterval 0]"
    by (simp add: example_effects)
  from th have "map_of (connections (cleanupConnection example_id example_server)) example_id = None"
    by blast
  with a b c d example_reachable show ?thesis
    by blast
qed

text \<open>
  The claim as the specification states it fails. After teardown of the example
  connection no effect has closed its socket, and the timeout interval (handle 1) is
  still scheduled: when it is due at 61000 it fires and destroys the socket.
\<close>

theorem teardown_counterexample:
  "transport_closes 7 (effects (cleanupConnection example_id example_server)) = 0 \<and>
   timers (cleanupConnection example_id example_server) 1 =
     Some \<lparr>period = 30000, started = 1000, action = TimeoutCheck 0 example_id\<rparr> \<and>
   due \<lparr>period = 30000, started = 1000, action = TimeoutCheck 0 example_id\<rparr> 61000 \<and>
   effects (on_timer 1 61000 (cleanupConnection example_id example_server)) =
     [Console LogL, ClearInterval 0, Console LogL, SockDestroy 7]"
proof -
  have t: "timers (cleanupConnection example_id example_server) (Suc 0) =
     Some \<lparr>period = 30000, started = 1000, action = TimeoutCheck 0 example_id\<rparr>"
    using example_timers(2)
    by (simp add: cleanupConnection_unfolded example_connections example_heap)
  have e: "effects (cleanupConnection example_id example_server) = [Console LogL, ClearInterval 0]"
    by (simp add: cleanupConnection_unfolded example_connections example_heap example_effects)
  have "effects (on_timer 1 61000 (cleanupConnection example_id example_server)) =
     [Console LogL, ClearInterval 0, Console LogL, SockDestroy 7]"
    by (simp add: on_timer_def t timeout_action_def cleanupConnection_frame example_heap
        example_config Let_def console_def e cleanupConnection_absent cleanupConnection_removes)
  with t e show ?thesis
    by (simp add: transport_closes_def due_def)
qed

section \<open>Who writes \<^verbatim>\<open>lastActivity\<close>\<close>





section \<open>Detection of a silent connection\<close>






section \<open>Chunks and lines\<close>

subsection \<open>The lexer on a text put together from parts\<close>

lemma lex_error_sticky: "foldl lex_step LErr cs = LErr"
  by (induction cs) simp_all

lemma start_step_with_tokens:
  "start_step (pre @ ts) c = with_tokens pre (start_step ts c)"
  by (simp add: start_step_def)

lemma mode_step_with_tokens:
  "mode_step m (pre @ ts) c = with_tokens pre (mode_step m ts c)"
  by (cases m) (simp_all add: start_step_with_tokens [symmetric] split: option.splits)

lemma lex_step_with_tokens:
  "lex_step (with_tokens pre st) c = with_tokens pre (lex_step st c)"
  by (cases st) (simp_all add: mode_step_with_tokens)

lemma lex_run_with_tokens:
  "foldl lex_step (with_tokens pre st) cs = with_tokens pre (foldl lex_step st cs)"
  by (induction cs arbitrary: st) (simp_all add: lex_step_with_tokens)

lemma lex_end_with_tokens:
  "lex_end (with_tokens pre st) = map_option ((@) pre) (lex_end st)"
proof (cases st)
  case LErr
  then show ?thesis by simp
next
  case (LSt m ts)
  then show ?thesis by (cases m) simp_all
qed

lemma newline_ends_token:
  "lex_end st = Some toks \<Longrightarrow> lex_step st 10 = LSt MStart toks"
proof (cases st)
  case LErr
  assume "lex_end st = Some toks"
  with LErr show ?thesis by simp
next
  case (LSt m ts)
  assume "lex_end st = Some toks"
  with LSt show ?thesis
    by (cases m) (simp_all add: start_step_def is_ws_def is_digit_def)
qed

lemma lex_line_then:
  assumes "lex x = Some tx"
  shows "lex (x @ [10] @ y) = map_option ((@) tx) (lex y)"
proof -
  have "foldl lex_step (LSt MStart []) (x @ [10]) = LSt MStart tx"
    using assms by (simp add: lex_def newline_ends_token)
  then have "foldl lex_step (LSt MStart []) (x @ [10] @ y) =
      foldl lex_step (with_tokens tx (LSt MStart [])) y"
    by simp
  then show ?thesis
    by (simp only: lex_def lex_run_with_tokens lex_end_with_tokens)
qed

subsection \<open>The parser after a complete value\<close>

lemma parse_error_sticky: "foldl pstep PErr ts = PErr"
  by (induction ts) simp_all

lemma parse_tokens_Nil: "parse_tokens [] = None"
  by (simp add: parse_tokens_def)

lemma parse_tokens_more:
  assumes "parse_tokens t1 = Some v" and "t2 \<noteq> []"
  shows "parse_tokens (t1 @ t2) = None"
proof -
  from assms(1) have "foldl pstep (PRun PValue []) t1 = PDone v"
    by (cases "foldl pstep (PRun PValue []) t1") (simp_all add: parse_tokens_def)
  moreover from assms(2) obtain t ts where "t2 = t # ts"
    by (cases t2) auto
  ultimately show ?thesis
    by (simp add: parse_tokens_def parse_error_sticky)
qed

lemma JSON_parse_tokens:
  assumes "JSON_parse x = Some v"
  obtains tx where "lex x = Some tx" and "parse_tokens tx = Some v" and "tx \<noteq> []"
proof -
  from assms obtain tx where l: "lex x = Some tx" and p: "parse_tokens tx = Some v"
    by (auto simp: JSON_parse_def split: option.splits)
  from p have "tx \<noteq> []" by (auto simp: parse_tokens_Nil)
  with l p that show thesis by blast
qed

lemma one_line_parses:
  assumes "JSON_parse l = Some m"
  shows "JSON_parse (l @ [10]) = Some m"
proof -
  from assms obtain tl where l: "lex l = Some tl" and p: "parse_tokens tl = Some m"
    by (rule JSON_parse_tokens)
  have "lex [] = Some []" by (simp add: lex_def)
  with lex_line_then [OF l, of "[]"] have "lex (l @ [10]) = Some tl" by simp
  with p show ?thesis by (simp add: JSON_parse_def)
qed

lemma two_lines_rejected:
  assumes "JSON_parse l1 = Some m1" and "JSON_parse l2 = Some m2"
  shows "JSON_parse (l1 @ [10] @ l2 @ [10] @ rest) = None"
proof -
  from assms(1) obtain t1 where l1: "lex l1 = Some t1" and p1: "parse_tokens t1 = Some m1"
    by (rule JSON_parse_tokens)
  from assms(2) obtain t2 where l2: "lex l2 = Some t2" and n2: "t2 \<noteq> []"
    by (rule JSON_parse_tokens)
  have "lex (l1 @ [10] @ l2 @ [10] @ rest) =
      map_option ((@) t1) (map_option ((@) t2) (lex rest))"
    by (simp only: lex_line_then [OF l1] lex_line_then [OF l2])
  then show ?thesis
    using parse_tokens_more [OF p1, of "t2 @ more" for more] n2
    by (cases "lex rest") (simp_all add: JSON_parse_def)
qed

subsection \<open>White space around a text\<close>

lemma start_step_space:
  "is_js_space c \<Longrightarrow> start_step ts c = (if is_ws c then LSt MStart ts else LErr)"
  by (auto simp: start_step_def is_js_space_def is_ws_def is_digit_def)

lemma lit_text_no_space: "k < length (lit_text tok) \<Longrightarrow> \<not> is_js_space (lit_text tok ! k)"
  by (cases tok)
    (auto simp: lit_text_def js_def is_js_space_def nth_Cons' split: if_splits)

lemma space_after_lexer_state:
  assumes "is_js_space c" and "lex_end (lex_step st c) = Some t"
  shows "lex_end st = Some t"
proof (cases st)
  case LErr
  with assms(2) show ?thesis by simp
next
  case (LSt m ts)
  show ?thesis
  proof (cases m)
    case (MLit tok k)
    with LSt assms lit_text_no_space [of k tok] show ?thesis
      by (auto split: if_splits)
  next
    case (MStr s)
    with LSt assms show ?thesis by (auto simp: is_js_space_def split: if_splits)
  next
    case (MEsc s)
    with LSt assms show ?thesis
      by (auto simp: unescape_def is_js_space_def split: if_splits option.splits)
  next
    case (MUni s k v)
    with LSt assms show ?thesis
      by (auto simp: hex_digit_def is_js_space_def split: if_splits option.splits)
  qed (use LSt assms in
      \<open>auto simp: start_step_space is_js_space_def is_digit_def split: if_splits\<close>)
qed

lemma lex_without_trailing_space:
  "\<forall>c\<in>set q. is_js_space c \<Longrightarrow> lex (x @ q) = Some t \<Longrightarrow> lex x = Some t"
proof (induction q rule: rev_induct)
  case Nil
  then show ?case by simp
next
  case (snoc c q)
  from snoc.prems(1) have c: "is_js_space c" and q: "\<forall>c\<in>set q. is_js_space c"
    by simp_all
  from snoc.prems(2) have "lex_end (lex_step (foldl lex_step (LSt MStart []) (x @ q)) c) = Some t"
    by (simp add: lex_def)
  with c have "lex_end (foldl lex_step (LSt MStart []) (x @ q)) = Some t"
    by (rule space_after_lexer_state)
  then have "lex (x @ q) = Some t"
    by (simp only: lex_def)
  with q show ?case by (rule snoc.IH)
qed

lemma lex_without_leading_space:
  "lex x = Some t \<Longrightarrow> lex (dropWhile is_js_space x) = Some t"
proof (induction x)
  case Nil
  then show ?case by simp
next
  case (Cons c cs)
  show ?case
  proof (cases "is_js_space c")
    case False
    with Cons.prems show ?thesis by simp
  next
    case True
    show ?thesis
    proof (cases "is_ws c")
      case ws: True
      with True Cons.prems have "lex cs = Some t"
        by (simp add: lex_def start_step_space)
      with True Cons.IH show ?thesis by simp
    next
      case False
      with True Cons.prems show ?thesis
        by (simp add: lex_def start_step_space lex_error_sticky)
    qed
  qed
qed

lemma lex_only_space:
  "\<forall>c\<in>set x. is_js_space c \<Longrightarrow> lex x = Some t \<Longrightarrow> t = []"
proof (induction x)
  case Nil
  then show ?case by (simp add: lex_def)
next
  case (Cons c cs)
  then show ?case
    by (cases "is_ws c") (simp_all add: lex_def start_step_space lex_error_sticky)
qed

lemma trim_split:
  obtains post where "dropWhile is_js_space x = trim x @ post"
    and "\<forall>c\<in>set post. is_js_space c"
proof -
  let ?y = "dropWhile is_js_space x"
  have "trim x @ rev (takeWhile is_js_space (rev ?y)) =
      rev (takeWhile is_js_space (rev ?y) @ dropWhile is_js_space (rev ?y))"
    by (simp only: trim_def rev_append)
  also have "\<dots> = ?y"
    by (simp only: takeWhile_dropWhile_id rev_rev_ident)
  finally have "?y = trim x @ rev (takeWhile is_js_space (rev ?y))"
    by (rule sym)
  moreover have "\<forall>c\<in>set (rev (takeWhile is_js_space (rev ?y))). is_js_space c"
    by (auto dest: set_takeWhileD)
  ultimately show thesis by (rule that)
qed

lemma lex_trim: "lex x = Some t \<Longrightarrow> lex (trim x) = Some t"
proof -
  assume "lex x = Some t"
  then have a: "lex (dropWhile is_js_space x) = Some t"
    by (rule lex_without_leading_space)
  obtain post where "dropWhile is_js_space x = trim x @ post"
    and "\<forall>c\<in>set post. is_js_space c"
    by (rule trim_split)
  with a show ?thesis
    by (auto intro: lex_without_trailing_space)
qed

lemma JSON_parse_trim: "JSON_parse x = Some v \<Longrightarrow> JSON_parse (trim x) = Some v"
  by (auto simp: JSON_parse_def lex_trim split: option.splits)

lemma append_eq_cases [consumes 1, case_names long short]:
  "xs @ ys = zs @ ts \<Longrightarrow>
   (\<And>us. xs = zs @ us \<Longrightarrow> us @ ys = ts \<Longrightarrow> P) \<Longrightarrow>
   (\<And>us. xs @ us = zs \<Longrightarrow> ys = us @ ts \<Longrightarrow> P) \<Longrightarrow> P"
  by (auto simp: append_eq_append_conv2)

lemma two_lines_prefix_rejected:
  assumes p1: "JSON_parse l1 = Some m1" and p2: "JSON_parse l2 = Some m2"
    and eq: "z @ post = l1 @ [10] @ l2 @ [10] @ rest"
    and sp: "\<forall>c\<in>set post. is_js_space c"
  shows "JSON_parse z = None"
proof -
  from p1 obtain t1 where l1: "lex l1 = Some t1" and q1: "parse_tokens t1 = Some m1"
    by (rule JSON_parse_tokens)
  from p2 obtain t2 where l2: "lex l2 = Some t2" and n2: "t2 \<noteq> []"
    by (rule JSON_parse_tokens)
  have two: "JSON_parse (l1 @ [10] @ v) = None" if "lex v = Some t2" for v
  proof -
    have "lex (l1 @ [10] @ v) = Some (t1 @ t2)"
      using lex_line_then [OF l1, of v] that by simp
    with parse_tokens_more [OF q1 n2] show ?thesis
      by (simp add: JSON_parse_def)
  qed
  from eq have "z @ post = (l1 @ [10] @ l2) @ ([10] @ rest)"
    by simp
  then show ?thesis
  proof (cases rule: append_eq_cases)
    case (long us)
    show ?thesis
    proof (cases us)
      case Nil
      with long two [OF l2] show ?thesis by simp
    next
      case (Cons u us')
      with long have "z = l1 @ [10] @ l2 @ [10] @ us'"
        by auto
      with two_lines_rejected [OF p1 p2] show ?thesis by simp
    qed
  next
    case (short us)
    from short(2) sp have usp: "\<forall>c\<in>set us. is_js_space c"
      by simp
    from short(1) have "z @ us = (l1 @ [10]) @ l2"
      by simp
    then show ?thesis
    proof (cases rule: append_eq_cases)
      case (long vs)
      note inside = this
      from inside(2) l2 have "lex (vs @ us) = Some t2"
        by simp
      with usp have "lex vs = Some t2"
        by (rule lex_without_trailing_space)
      with two inside(1) show ?thesis by simp
    next
      case (short vs)
      note before = this
      with usp have "\<forall>c\<in>set l2. is_js_space c"
        by simp
      then have "t2 = []"
        using l2 by (rule lex_only_space)
      with n2 show ?thesis by simp
    qed
  qed
qed

lemma two_lines_trim_rejected:
  assumes p1: "JSON_parse l1 = Some m1" and p2: "JSON_parse l2 = Some m2"
  shows "JSON_parse (trim (l1 @ [10] @ l2 @ [10] @ rest)) = None"
proof -
  let ?x = "l1 @ [10] @ l2 @ [10] @ rest"
  from p1 obtain t1 where l1: "lex l1 = Some t1" and n1: "t1 \<noteq> []"
    by (rule JSON_parse_tokens)
  from l1 n1 obtain c where "c \<in> set l1" and "\<not> is_js_space c"
    using lex_only_space by blast
  then have d: "dropWhile is_js_space ?x = dropWhile is_js_space l1 @ [10] @ l2 @ [10] @ rest"
    by (rule dropWhile_append1)
  from p1 have p1': "JSON_parse (dropWhile is_js_space l1) = Some m1"
    by (auto simp: JSON_parse_def lex_without_leading_space split: option.splits)
  obtain post where "dropWhile is_js_space ?x = trim ?x @ post"
    and sp: "\<forall>c\<in>set post. is_js_space c"
    by (rule trim_split)
  with d have "trim ?x @ post = dropWhile is_js_space l1 @ [10] @ l2 @ [10] @ rest"
    by simp
  with p1' p2 show ?thesis
    using sp by (rule two_lines_prefix_rejected)
qed

subsection \<open>One chunk, one decoding\<close>

lemma ping_lines_parse:
  "JSON_parse ping_line1 = Some (ping_message ''p1'')"
  "JSON_parse ping_line2 = Some (ping_message ''p2'')"
  "JSON_parse (ping_line1 @ [10]) = Some (ping_message ''p1'')"
  "JSON_parse (ping_line2 @ [10]) = Some (ping_message ''p2'')"
  "JSON_parse (ping_line1 @ [10] @ ping_line2 @ [10]) = None"
  by code_simp+

lemma example_listeners: "listeners example_server 7 = Some example_id"
  by (simp add: eval_defs)

text \<open>
  Claim C4, as the code has it. A data handler gives the whole chunk (the client: the
  trimmed chunk) to \<^verbatim>\<open>JSON.parse\<close> once. A message line with its newline is decoded as
  that message. Two message lines in one chunk, whatever follows them, are not split:
  \<^verbatim>\<open>JSON.parse\<close> rejects the chunk, the server dispatches neither message and writes the
  one reply for an invalid format, and the client logs an error.
\<close>

theorem chunk_decoded_as_one_unit:
  assumes "JSON_parse l1 = Some m1" and "JSON_parse l2 = Some m2"
  shows "JSON_parse (l1 @ [10]) = Some m1 \<and>
     JSON_parse (trim (l1 @ [10])) = Some m1 \<and>
     JSON_parse (l1 @ [10] @ l2 @ [10] @ rest) = None \<and>
     JSON_parse (trim (l1 @ [10] @ l2 @ [10] @ rest)) = None \<and>
     on_data sock cid (l1 @ [10] @ l2 @ [10] @ rest) now s =
       s\<lparr>effects := effects s @
            [Console ErrorL,
             SockWrite sock
               \<lparr>mtype = Data,
                payload = Some (JObj [(js ''error'', JStr (js ''Invalid message format''))]),
                timestamp = now, mid = None\<rparr>]\<rparr> \<and>
     c_on_data (l1 @ [10] @ l2 @ [10] @ rest) now c =
       c\<lparr>c_lastActivity := now, c_effects := c_effects c @ [Console ErrorL]\<rparr>"
proof -
  have one: "JSON_parse (l1 @ [10]) = Some m1"
    using assms(1) by (rule one_line_parses)
  then have one': "JSON_parse (trim (l1 @ [10])) = Some m1"
    by (rule JSON_parse_trim)
  have two: "JSON_parse (l1 @ [10] @ l2 @ [10] @ rest) = None"
    using assms by (rule two_lines_rejected)
  have two': "JSON_parse (trim (l1 @ [10] @ l2 @ [10] @ rest)) = None"
    using assms by (rule two_lines_trim_rejected)
  have srv: "on_data sock cid (l1 @ [10] @ l2 @ [10] @ rest) now s =
       s\<lparr>effects := effects s @
            [Console ErrorL,
             SockWrite sock
               \<lparr>mtype = Data,
                payload = Some (JObj [(js ''error'', JStr (js ''Invalid message format''))]),
                timestamp = now, mid = None\<rparr>]\<rparr>"
    by (simp only: on_data_def two option.case)
      (simp add: sendMessage_def console_def invalid_format_reply_def)
  have cli: "c_on_data (l1 @ [10] @ l2 @ [10] @ rest) now c =
       c\<lparr>c_lastActivity := now, c_effects := c_effects c @ [Console ErrorL]\<rparr>"
    by (simp only: c_on_data_def two' option.case Let_def) (simp add: c_console_def)
  from one one' two two' srv cli show ?thesis
    by (intro conjI)
qed

theorem chunk_decoded_as_one_unit_witness:
  "JSON_parse ping_line1 = Some (ping_message ''p1'') \<and>
   JSON_parse ping_line2 = Some (ping_message ''p2'') \<and>
   JSON_parse (ping_line1 @ [10]) = Some (ping_message ''p1'') \<and>
   effects (on_data 7 example_id (ping_line1 @ [10] @ ping_line2 @ [10] @ []) 2000
              example_server) =
     [Console LogL, Console ErrorL, SockWrite 7 (invalid_format_reply 2000)] \<and>
   c_effects (c_on_data (ping_line1 @ [10] @ ping_line2 @ [10] @ []) 2000 example_client) =
     [Console LogL, Console ErrorL]"
proof -
  note th = chunk_decoded_as_one_unit [OF ping_lines_parse(1) ping_lines_parse(2),
      of "[]" 7 example_id 2000 example_server example_client]
  from th have a: "JSON_parse (ping_line1 @ [10]) = Some (ping_message ''p1'')"
    by (rule conjunct1)
  from th have "on_data 7 example_id (ping_line1 @ [10] @ ping_line2 @ [10] @ []) 2000
          example_server =
       example_server\<lparr>effects := effects example_server @
            [Console ErrorL,
             SockWrite 7
               \<lparr>mtype = Data,
                payload = Some (JObj [(js ''error'', JStr (js ''Invalid message format''))]),
                timestamp = 2000, mid = None\<rparr>]\<rparr>"
    by (elim conjE)
  then have b: "effects (on_data 7 example_id (ping_line1 @ [10] @ ping_line2 @ [10] @ []) 2000
              example_server) =
     [Console LogL, Console ErrorL, SockWrite 7 (invalid_format_reply 2000)]"
    by (simp add: example_effects invalid_format_reply_def)
  from th have "c_on_data (ping_line1 @ [10] @ ping_line2 @ [10] @ []) 2000 example_client =
       example_client\<lparr>c_lastActivity := 2000,
         c_effects := c_effects example_client @ [Console ErrorL]\<rparr>"
    by (elim conjE)
  then have c: "c_effects (c_on_data (ping_line1 @ [10] @ ping_line2 @ [10] @ []) 2000
       example_client) = [Console LogL, Console ErrorL]"
    by (simp add: example_client_state)
  from ping_lines_parse(1,2) a b c show ?thesis
    by (intro conjI)
qed

text \<open>
  The claim as the specification states it fails. Two ping lines that arrive as two
  chunks are answered by two pongs; the same two lines in one chunk are answered by one
  invalid-format reply and no pong.
\<close>

theorem two_lines_in_one_chunk_counterexample:
  "effects (run [EvData 7 (ping_line1 @ [10]) 2000, EvData 7 (ping_line2 @ [10]) 2001]
              example_server) =
     [Console LogL,
      Console LogL, SockWrite 7 (pong_reply ''p1'' 2000),
      Console LogL, SockWrite 7 (pong_reply ''p2'' 2001)] \<and>
   effects (run [EvData 7 (ping_line1 @ [10] @ ping_line2 @ [10]) 2000] example_server) =
     [Console LogL, Console ErrorL, SockWrite 7 (invalid_format_reply 2000)]"
proof -
  have ids: "get_prop (ping_message i) (js ''type'') = Some (JStr (js ''ping''))"
    "get_prop (ping_message i) (js ''id'') = Some (JStr (js i))" for i
    by (simp_all add: ping_message_def js_def)
  have nn: "ping_message i \<noteq> JNull" for i
    by (simp add: ping_message_def)
  have "effects (run [EvData 7 (ping_line1 @ [10]) 2000, EvData 7 (ping_line2 @ [10]) 2001]
              example_server) =
     [Console LogL,
      Console LogL, SockWrite 7 (pong_reply ''p1'' 2000),
      Console LogL, SockWrite 7 (pong_reply ''p2'' 2001)]"
    by (simp add: example_listeners on_data_def ping_lines_parse handleMessage_def
        example_connections example_heap example_effects ids nn type_names_distinct
        Let_def console_def sendMessage_def pong_reply_def)
  moreover have "effects (run [EvData 7 (ping_line1 @ [10] @ ping_line2 @ [10]) 2000]
       example_server) = [Console LogL, Console ErrorL, SockWrite 7 (invalid_format_reply 2000)]"
    by (simp add: example_listeners on_data_def ping_lines_parse [simplified]
        console_def sendMessage_def example_effects)
  ultimately show ?thesis
    by (rule conjI)
qed

end
